theory Spec2Isabelle
  imports Complex_Main "HOL-Library.AList" "HOL-Library.Multiset"
begin

section \<open>Values seen through the empty interface\<close>

text \<open>
  The checkers of \<^verbatim>\<open>schema.go\<close> receive an \<^verbatim>\<open>interface{}\<close> and inspect it with
  package \<^verbatim>\<open>reflect\<close>. A value is modelled by its reflect kind and its payload.
  \<^item> \<open>VNil\<close> is the nil interface: \<^verbatim>\<open>reflect.ValueOf(nil)\<close> is the zero Value, of kind
    Invalid, and \<^verbatim>\<open>reflect.TypeOf(nil)\<close> is the nil Type.
  \<^item> \<open>VNum k n\<close> is an integer of kind \<open>k\<close> with numeric value \<open>n\<close>; \<open>VFloat k x\<close> a
    float of kind \<open>k\<close> denoting the number \<open>x\<close> (NaN and the infinities are not represented).
  \<^item> \<open>VSlice xs\<close> is a slice with the elements \<open>xs\<close>.
  \<^item> \<open>VMap kt kvs\<close> is a map with the key type \<open>kt\<close> and the entries \<open>kvs\<close>. The key
    type is \<^verbatim>\<open>interface{}\<close> (\<open>KeyInterface\<close>), the predeclared type of a kind
    (\<open>KeyKind String\<close> is the key type of a \<^verbatim>\<open>map[string]T\<close> and
    \<open>KeyKind (Integer KInt)\<close> that of a \<^verbatim>\<open>map[int]T\<close>), or any other type
    (\<open>KeyOther\<close>: a named type, a struct, an interface with methods). A Go map enumerates its
    entries in an order that the language leaves unspecified: the association list gives
    the entries in the order in which the runtime enumerates them, so two lists with the
    same associations in a different order are the same Go map, enumerated differently.
  The element type of a slice and of a map is not represented: the checkers read an element
  through \<^verbatim>\<open>Interface()\<close>, as an \<^verbatim>\<open>interface{}\<close>.
\<close>

datatype ikind = KInt | KInt8 | KInt16 | KInt32 | KInt64
  | KUint | KUint8 | KUint16 | KUint32 | KUint64 | KUintptr

datatype fkind = KFloat32 | KFloat64

datatype kind = Invalid | Bool | Integer ikind | Float fkind | String | Slice | Map

datatype keytype = KeyInterface | KeyKind kind | KeyOther

datatype "value" = VNil | VBool bool | VNum ikind int | VFloat fkind real
  | VString string | VSlice "value list" | VMap keytype "(value \<times> value) list"

text \<open>\<^verbatim>\<open>reflect.ValueOf(v).Kind()\<close>: defined on every value, Invalid on nil.\<close>

fun ValueOf_Kind :: "value \<Rightarrow> kind" where
  "ValueOf_Kind VNil = Invalid"
| "ValueOf_Kind (VBool b) = Bool"
| "ValueOf_Kind (VNum k n) = Integer k"
| "ValueOf_Kind (VFloat k x) = Float k"
| "ValueOf_Kind (VString s) = String"
| "ValueOf_Kind (VSlice xs) = Slice"
| "ValueOf_Kind (VMap kt kvs) = Map"

text \<open>
  \<^verbatim>\<open>reflect.TypeOf(v).Kind()\<close>: \<^verbatim>\<open>TypeOf(nil)\<close> is the nil Type, and the method call on
  it is a nil dereference; \<open>None\<close> stands for that run-time panic.
\<close>

definition TypeOf_Kind :: "value \<Rightarrow> kind option" where
  "TypeOf_Kind v = (if v = VNil then None else Some (ValueOf_Kind v))"

text \<open>\<^verbatim>\<open>rv.Len()\<close> with \<^verbatim>\<open>rv.Index(i).Interface()\<close>, and \<^verbatim>\<open>rv.MapKeys()\<close>, \<^verbatim>\<open>rv.MapIndex(k)\<close>.\<close>

fun elems :: "value \<Rightarrow> value list" where
  "elems (VSlice xs) = xs"
| "elems _ = []"

fun entries :: "value \<Rightarrow> (value \<times> value) list" where
  "entries (VMap kt kvs) = kvs"
| "entries _ = []"

definition MapKeys :: "value \<Rightarrow> value list" where
  "MapKeys v = map fst (entries v)"

text \<open>
  \<^verbatim>\<open>rv.MapIndex(key)\<close> panics when the type of \<open>key\<close> is not assignable to the key type of
  the map, and looks the key up otherwise. A key that \<^verbatim>\<open>rv.MapKeys()\<close> returned is of the
  key type. The other keys the checkers look up are \<^verbatim>\<open>reflect.ValueOf(k)\<close> for a Go string
  \<open>k\<close>, and the type \<^verbatim>\<open>string\<close> is assignable to the key types \<^verbatim>\<open>string\<close> and
  \<^verbatim>\<open>interface{}\<close> only (not to a named type, and not to an interface with methods):
  \<open>admits_string rv\<close> says that the key type of the map \<open>rv\<close> is one of the two.
  \<open>MapIndex\<close> is the lookup, where \<open>None\<close> is the zero Value that \<^verbatim>\<open>MapIndex\<close> returns
  for a key that is not in the map.
\<close>

fun admits_string :: "value \<Rightarrow> bool" where
  "admits_string (VMap kt kvs) = (kt = KeyInterface \<or> kt = KeyKind String)"
| "admits_string _ = False"

definition MapIndex :: "value \<Rightarrow> value \<Rightarrow> value option" where
  "MapIndex v k = map_of (entries v) k"

text \<open>
  \<^verbatim>\<open>var value interface{}; if valuev.IsValid() { value = valuev.Interface() }\<close>: the value
  found, and nil when the key is not in the map.
\<close>

fun Interface_or_nil :: "value option \<Rightarrow> value" where
  "Interface_or_nil None = VNil"
| "Interface_or_nil (Some x) = x"

text \<open>
  A map assignment \<^verbatim>\<open>out[k] = v\<close> with an interface key panics at run time when the
  dynamic type of the key is a slice or a map.
\<close>

fun hashable :: "value \<Rightarrow> bool" where
  "hashable (VSlice xs) = False"
| "hashable (VMap kt kvs) = False"
| "hashable _ = True"

text \<open>
  \<^verbatim>\<open>reflect.DeepEqual\<close>: same dynamic type and equal contents; slices element by element,
  maps of the same key type by length and by looking every key of the first up in the
  second.
\<close>

fun DeepEqual :: "value \<Rightarrow> value \<Rightarrow> bool" where
  "DeepEqual (VSlice xs) (VSlice ys) = (length xs = length ys \<and> list_all2 DeepEqual xs ys)"
| "DeepEqual (VMap k1 m1) (VMap k2 m2) =
     (k1 = k2 \<and> length m1 = length m2 \<and>
      list_all (\<lambda>kv. case map_of m2 (fst kv) of None \<Rightarrow> False
                                              | Some v2 \<Rightarrow> DeepEqual (snd kv) v2) m1)"
| "DeepEqual v1 v2 = (v1 = v2)"

text \<open>
  \<^verbatim>\<open>reflect.ValueOf(v).Int()\<close>, \<^verbatim>\<open>.Float()\<close> and \<^verbatim>\<open>.String()\<close>, called by the checkers on
  values of a signed integer, of a float and of the string kind only: the payload widened to
  \<^verbatim>\<open>int64\<close> and to \<^verbatim>\<open>float64\<close>, which keeps the number.
\<close>

fun Value_Int :: "value \<Rightarrow> int" where
  "Value_Int (VNum k n) = n"
| "Value_Int _ = 0"

fun Value_Float :: "value \<Rightarrow> real" where
  "Value_Float (VFloat k x) = x"
| "Value_Float _ = 0"

fun Value_String :: "value \<Rightarrow> string" where
  "Value_String (VString s) = s"
| "Value_String _ = []"

section \<open>Errors and outcomes\<close>

text \<open>The struct \<^verbatim>\<open>error{want, got, path}\<close>; \<open>got = VNil\<close> is the nil interface.\<close>

record error =
  want :: string
  got :: "value"
  path :: "string list"

text \<open>The run-time panics and the two explicit ones of \<^verbatim>\<open>FieldMapSet\<close>.\<close>

datatype panic = NilTypeCall | NilCheckerCall | InvalidValue | NotAssignable | UnhashableKey
  | IndexOutOfRange | Message string

text \<open>
  A call of \<^verbatim>\<open>Coerce\<close> returns \<^verbatim>\<open>(newv, nil)\<close>, returns \<^verbatim>\<open>(nil, err)\<close>, or panics.
\<close>

datatype outcome = Ok "value" | Err error | Panic panic

text \<open>
  The Go standard library functions the checkers call and whose text is not part of the
  package: \<^verbatim>\<open>fmt.Sprint\<close>, \<^verbatim>\<open>fmt.Sprintf("%#v", _)\<close> and whether \<^verbatim>\<open>regexp.Compile\<close>
  returns without error.
\<close>

record lib =
  Sprint :: "value \<Rightarrow> string"
  Sprintf_v :: "value \<Rightarrow> string"
  regexp_Compile :: "string \<Rightarrow> bool"

text \<open>\<^verbatim>\<open>strconv.Itoa\<close>.\<close>

fun utoa :: "nat \<Rightarrow> string" where
  "utoa n = (if n < 10 then [''0123456789'' ! n]
             else utoa (n div 10) @ [''0123456789'' ! (n mod 10)])"

declare utoa.simps [simp del]

definition Itoa :: "int \<Rightarrow> string" where
  "Itoa i = (if i < 0 then ''-'' @ utoa (nat (- i)) else utoa (nat i))"

section \<open>Checkers\<close>

text \<open>
  One constructor per implementation of the \<^verbatim>\<open>Checker\<close> interface, named after the Go
  type. \<^verbatim>\<open>Fields\<close> is a Go map from field name to checker: as for \<open>VMap\<close>, the
  association list is the map in the order in which \<^verbatim>\<open>range\<close> enumerates it.
  A \<^verbatim>\<open>mapSetC\<close> holds its \<^verbatim>\<open>fieldMapC\<close> structs by value.
\<close>

datatype checker = anyC | constC "value" | oneOfC "checker list" | boolC | intC | floatC
  | stringC | sregexpC | listC checker | mapC checker checker
  | fieldMapC "(string \<times> checker) list" "string list"
  | mapSetC string "((string \<times> checker) list \<times> string list) list"

type_synonym Fields = "(string \<times> checker) list"
type_synonym Optional = "string list"

text \<open>The constructors of the package that do nothing but build the struct.\<close>

definition FieldMap :: "Fields \<Rightarrow> Optional \<Rightarrow> checker" where
  "FieldMap fs optional = fieldMapC fs optional"

text \<open>\<^verbatim>\<open>fieldMapC.isOptional\<close>.\<close>

fun isOptional :: "Optional \<Rightarrow> string \<Rightarrow> bool" where
  "isOptional [] key = False"
| "isOptional (k # ks) key = (if k = key then True else isOptional ks key)"

section \<open>Coerce\<close>

text \<open>
  The path is a Go slice. A checker that extends it (\<^verbatim>\<open>append(path, ...)\<close>) and then
  overwrites the placeholder writes only at indices at or beyond the length of the slice it
  was given, and an error that is returned is returned at once by every caller that does
  not drop it. \<^verbatim>\<open>mapC.Coerce\<close> calls the key checker with the shorter \<^verbatim>\<open>path\<close> after it
  has built \<^verbatim>\<open>vpath\<close>, but a map key is never a slice or a map, and no checker extends the
  path on such a value. So the contents of the slice a checker receives, and of the slice
  inside a returned error, are those of the list built here with \<open>@\<close>.

  The loops of the composite checkers are written once, over the function that coerces
  with a child checker; \<open>Coerce\<close> below passes itself.
\<close>

text \<open>The loop of \<^verbatim>\<open>oneOfC.Coerce\<close>: \<open>co o\<close> is \<^verbatim>\<open>o.Coerce(v, path)\<close>.\<close>

fun oneOf_loop :: "(checker \<Rightarrow> outcome) \<Rightarrow> checker list \<Rightarrow> string list \<Rightarrow> outcome" where
  "oneOf_loop co [] p = Err \<lparr>want = [], got = VNil, path = p\<rparr>"
| "oneOf_loop co (opt # options) p =
     (case co opt of
        Ok newv \<Rightarrow> Ok newv
      | Err e \<Rightarrow> oneOf_loop co options p
      | Panic x \<Rightarrow> Panic x)"

text \<open>
  The loop of \<^verbatim>\<open>listC.Coerce\<close> from index \<open>i\<close> on: \<open>co i x\<close> is
  \<^verbatim>\<open>c.elem.Coerce(rv.Index(i).Interface(), path)\<close> after \<^verbatim>\<open>path[len(path)-2] = strconv.Itoa(i)\<close>,
  and \<open>out\<close> is the slice appended to.
\<close>

fun list_loop :: "(nat \<Rightarrow> value \<Rightarrow> outcome) \<Rightarrow> nat \<Rightarrow> value list \<Rightarrow> value list \<Rightarrow> outcome" where
  "list_loop co i [] out = Ok (VSlice out)"
| "list_loop co i (x # xs) out =
     (case co i x of
        Ok elem \<Rightarrow> list_loop co (Suc i) xs (out @ [elem])
      | Err e \<Rightarrow> Err e
      | Panic x \<Rightarrow> Panic x)"

text \<open>
  The loop of \<^verbatim>\<open>mapC.Coerce\<close> over \<^verbatim>\<open>keys\<close>: \<open>cok k\<close> is \<^verbatim>\<open>c.key.Coerce(k.Interface(), path)\<close>
  and \<open>cov k x\<close> is \<^verbatim>\<open>c.value.Coerce(x, vpath)\<close> after \<^verbatim>\<open>vpath[len(vpath)-1] = fmt.Sprint(k.Interface())\<close>.
  \<^verbatim>\<open>rv.MapIndex(k).Interface()\<close> panics on the zero Value. \<^verbatim>\<open>out\<close> is a
  \<^verbatim>\<open>map[interface{}]interface{}\<close>: \<^verbatim>\<open>out[newk] = newv\<close> overwrites
  an entry with an equal key, adds one otherwise, and panics on an unhashable key.
\<close>

fun map_loop :: "(value \<Rightarrow> outcome) \<Rightarrow> (value \<Rightarrow> value \<Rightarrow> outcome) \<Rightarrow> value \<Rightarrow> value list
    \<Rightarrow> (value \<times> value) list \<Rightarrow> outcome" where
  "map_loop cok cov rv [] out = Ok (VMap KeyInterface out)"
| "map_loop cok cov rv (k # keys) out =
     (case cok k of
        Err e \<Rightarrow> Err e
      | Panic x \<Rightarrow> Panic x
      | Ok newk \<Rightarrow>
          (case MapIndex rv k of
             None \<Rightarrow> Panic InvalidValue
           | Some x \<Rightarrow>
               (case cov k x of
                  Err e \<Rightarrow> Err e
                | Panic x \<Rightarrow> Panic x
                | Ok newv \<Rightarrow>
                    if hashable newk then map_loop cok cov rv keys (AList.update newk newv out)
                    else Panic UnhashableKey)))"

text \<open>
  The loop of \<^verbatim>\<open>fieldMapC.Coerce\<close> over \<^verbatim>\<open>c.fields\<close>: \<open>co checker value k\<close> is
  \<^verbatim>\<open>checker.Coerce(value, vpath)\<close> after \<^verbatim>\<open>vpath[len(vpath)-1] = k\<close>. Each round
  starts with \<^verbatim>\<open>rv.MapIndex(reflect.ValueOf(k))\<close>, which panics on a map whose key type
  admits no string. A field that is
  not in the input keeps \<^verbatim>\<open>value\<close> nil, and is skipped (\<^verbatim>\<open>continue\<close>) only when it is
  optional. \<^verbatim>\<open>out\<close> is a \<^verbatim>\<open>map[string]interface{}\<close>.
\<close>

fun fields_loop :: "(checker \<Rightarrow> value \<Rightarrow> string \<Rightarrow> outcome) \<Rightarrow> Optional \<Rightarrow> value \<Rightarrow> Fields
    \<Rightarrow> (value \<times> value) list \<Rightarrow> outcome" where
  "fields_loop co optional rv [] out = Ok (VMap (KeyKind String) out)"
| "fields_loop co optional rv ((k, checker) # fs) out =
     (if \<not> admits_string rv then Panic NotAssignable
      else (let valuev = MapIndex rv (VString k) in
            if valuev = None \<and> isOptional optional k then fields_loop co optional rv fs out
            else (case co checker (Interface_or_nil valuev) k of
                    Ok newv \<Rightarrow> fields_loop co optional rv fs (AList.update (VString k) newv out)
                  | Err e \<Rightarrow> Err e
                  | Panic x \<Rightarrow> Panic x)))"

text \<open>\<^verbatim>\<open>fieldMapC.Coerce\<close>, over the function \<open>co c x q\<close> that is \<^verbatim>\<open>c.Coerce(x, q)\<close>.\<close>

definition fieldMapC_Coerce :: "(checker \<Rightarrow> value \<Rightarrow> string list \<Rightarrow> outcome) \<Rightarrow> Fields \<Rightarrow> Optional
    \<Rightarrow> value \<Rightarrow> string list \<Rightarrow> outcome" where
  "fieldMapC_Coerce co fs optional v p =
     (if ValueOf_Kind v \<noteq> Map then Err \<lparr>want = ''map'', got = v, path = p\<rparr>
      else fields_loop (\<lambda>checker x k. co checker x (p @ [''.'', k])) optional v fs [])"

text \<open>
  The loop of \<^verbatim>\<open>mapSetC.Coerce\<close> over \<^verbatim>\<open>c.fmaps\<close>, entered when the selector is in the
  input, with value \<open>selector\<close>. \<^verbatim>\<open>fmap.fields[c.selector]\<close> is the nil Checker when the
  field is not declared, and the method call on it a nil dereference.
\<close>

fun mapSet_loop :: "(checker \<Rightarrow> value \<Rightarrow> string list \<Rightarrow> outcome) \<Rightarrow> string
    \<Rightarrow> (Fields \<times> Optional) list \<Rightarrow> value \<Rightarrow> value \<Rightarrow> string list \<Rightarrow> outcome" where
  "mapSet_loop co sel [] selector v p =
     Err \<lparr>want = ''supported selector'', got = selector, path = p @ [''.'', sel]\<rparr>"
| "mapSet_loop co sel (fmap # fmaps) selector v p =
     (case map_of (fst fmap) sel of
        None \<Rightarrow> Panic NilCheckerCall
      | Some checker \<Rightarrow>
          (case co checker selector p of
             Err e \<Rightarrow> mapSet_loop co sel fmaps selector v p
           | Panic x \<Rightarrow> Panic x
           | Ok newv \<Rightarrow> fieldMapC_Coerce co (fst fmap) (snd fmap) v p))"

text \<open>Congruence rules: each loop calls \<open>co\<close> on the checkers it holds only.\<close>

lemma oneOf_loop_cong [fundef_cong]:
  "options = options' \<Longrightarrow> p = p' \<Longrightarrow> (\<And>c. c \<in> set options' \<Longrightarrow> co c = co' c)
   \<Longrightarrow> oneOf_loop co options p = oneOf_loop co' options' p'"
  by (induction options arbitrary: options') (auto split: outcome.splits)

lemma fields_loop_cong [fundef_cong]:
  "optional = optional' \<Longrightarrow> rv = rv' \<Longrightarrow> fs = fs' \<Longrightarrow> out = out'
   \<Longrightarrow> (\<And>k c x. (k, c) \<in> set fs' \<Longrightarrow> co c x k = co' c x k)
   \<Longrightarrow> fields_loop co optional rv fs out = fields_loop co' optional' rv' fs' out'"
proof (induction fs arbitrary: fs' out out')
  case Nil
  then show ?case by simp
next
  case (Cons kc fs)
  obtain k c where kc: "kc = (k, c)" by (cases kc)
  have head: "\<And>x. co c x k = co' c x k" using Cons.prems kc by auto
  have tail: "\<And>out. fields_loop co optional rv fs out = fields_loop co' optional' rv' fs out"
    using Cons.prems by (intro Cons.IH) auto
  show ?case using Cons.prems kc head tail
    by (auto simp: Let_def split: outcome.splits)
qed

lemma fieldMapC_Coerce_cong [fundef_cong]:
  "fs = fs' \<Longrightarrow> optional = optional' \<Longrightarrow> v = v' \<Longrightarrow> p = p'
   \<Longrightarrow> (\<And>c x q. c \<in> snd ` set fs' \<Longrightarrow> co c x q = co' c x q)
   \<Longrightarrow> fieldMapC_Coerce co fs optional v p = fieldMapC_Coerce co' fs' optional' v' p'"
proof -
  assume eqs: "fs = fs'" "optional = optional'" "v = v'" "p = p'"
    and sub: "\<And>c x q. c \<in> snd ` set fs' \<Longrightarrow> co c x q = co' c x q"
  have "\<And>k c x. (k, c) \<in> set fs' \<Longrightarrow> co c x (p' @ [''.'', k]) = co' c x (p' @ [''.'', k])"
    by (rule sub) force
  then have "fields_loop (\<lambda>checker x k. co checker x (p' @ [''.'', k])) optional' v' fs' []
           = fields_loop (\<lambda>checker x k. co' checker x (p' @ [''.'', k])) optional' v' fs' []"
    by (intro fields_loop_cong) auto
  then show ?thesis by (simp add: fieldMapC_Coerce_def eqs)
qed

lemma mapSet_loop_same:
  "(\<And>fmap c x q. fmap \<in> set fmaps \<Longrightarrow> c \<in> snd ` set (fst fmap) \<Longrightarrow> co c x q = co' c x q)
   \<Longrightarrow> mapSet_loop co sel fmaps selector v p = mapSet_loop co' sel fmaps selector v p"
proof (induction fmaps)
  case Nil
  then show ?case by simp
next
  case (Cons fmap fmaps)
  have sub: "\<And>c x q. c \<in> snd ` set (fst fmap) \<Longrightarrow> co c x q = co' c x q"
    by (rule Cons.prems, simp_all)
  have fm: "fieldMapC_Coerce co (fst fmap) (snd fmap) v p
          = fieldMapC_Coerce co' (fst fmap) (snd fmap) v p"
    using sub by (intro fieldMapC_Coerce_cong) auto
  have look: "\<And>c. map_of (fst fmap) sel = Some c \<Longrightarrow> co c selector p = co' c selector p"
    by (rule sub) (force dest: map_of_SomeD)
  have tail: "mapSet_loop co sel fmaps selector v p = mapSet_loop co' sel fmaps selector v p"
    by (rule Cons.IH) (rule Cons.prems, simp_all)
  show ?case using fm look tail
    by (auto split: option.splits outcome.splits)
qed

lemma mapSet_loop_cong [fundef_cong]:
  "sel = sel' \<Longrightarrow> fmaps = fmaps' \<Longrightarrow> selector = selector' \<Longrightarrow> v = v' \<Longrightarrow> p = p'
   \<Longrightarrow> (\<And>fmap c x q. fmap \<in> set fmaps' \<Longrightarrow> c \<in> snd ` set (fst fmap) \<Longrightarrow> co c x q = co' c x q)
   \<Longrightarrow> mapSet_loop co sel fmaps selector v p = mapSet_loop co' sel' fmaps' selector' v' p'"
  using mapSet_loop_same [of fmaps' co co' sel' selector' v' p'] by simp

text \<open>
  \<^verbatim>\<open>Coerce\<close>, one equation per method, in the order of the file. The first argument is the
  library the methods call.
\<close>

fun Coerce :: "lib \<Rightarrow> checker \<Rightarrow> value \<Rightarrow> string list \<Rightarrow> outcome" where
  "Coerce L anyC v p = Ok v"
| "Coerce L (constC val) v p =
     (if DeepEqual v val then Ok v
      else Err \<lparr>want = Sprintf_v L val, got = v, path = p\<rparr>)"
| "Coerce L (oneOfC options) v p = oneOf_loop (\<lambda>opt. Coerce L opt v p) options p"
| "Coerce L boolC v p =
     (case TypeOf_Kind v of
        None \<Rightarrow> Panic NilTypeCall
      | Some k \<Rightarrow> if k = Bool then Ok v else Err \<lparr>want = ''bool'', got = v, path = p\<rparr>)"
| "Coerce L intC v p =
     (case TypeOf_Kind v of
        None \<Rightarrow> Panic NilTypeCall
      | Some k \<Rightarrow>
          if k = Integer KInt \<or> k = Integer KInt8 \<or> k = Integer KInt16 \<or> k = Integer KInt32
             \<or> k = Integer KInt64
          then Ok (VNum KInt64 (Value_Int v))
          else Err \<lparr>want = ''int'', got = v, path = p\<rparr>)"
| "Coerce L floatC v p =
     (case TypeOf_Kind v of
        None \<Rightarrow> Panic NilTypeCall
      | Some k \<Rightarrow>
          if k = Float KFloat32 \<or> k = Float KFloat64
          then Ok (VFloat KFloat64 (Value_Float v))
          else Err \<lparr>want = ''float'', got = v, path = p\<rparr>)"
| "Coerce L stringC v p =
     (case TypeOf_Kind v of
        None \<Rightarrow> Panic NilTypeCall
      | Some k \<Rightarrow>
          if k = String then Ok (VString (Value_String v))
          else Err \<lparr>want = ''string'', got = v, path = p\<rparr>)"
| "Coerce L sregexpC v p =
     (case TypeOf_Kind v of
        None \<Rightarrow> Panic NilTypeCall
      | Some k \<Rightarrow>
          if k = String then
            (let s = Value_String v in
             if \<not> regexp_Compile L s
             then Err \<lparr>want = ''valid regexp'', got = VString s, path = p\<rparr>
             else Ok v)
          else Err \<lparr>want = ''regexp string'', got = v, path = p\<rparr>)"
| "Coerce L (listC elem) v p =
     (if ValueOf_Kind v \<noteq> Slice then Err \<lparr>want = ''list'', got = v, path = p\<rparr>
      else list_loop (\<lambda>i x. Coerce L elem x (p @ [''['', Itoa (int i), '']''])) 0 (elems v) [])"
| "Coerce L (mapC key val) v p =
     (if ValueOf_Kind v \<noteq> Map then Err \<lparr>want = ''map'', got = v, path = p\<rparr>
      else map_loop (\<lambda>k. Coerce L key k p)
                    (\<lambda>k x. Coerce L val x (p @ [''.'', Sprint L k]))
                    v (MapKeys v) [])"
| "Coerce L (fieldMapC fs optional) v p =
     fieldMapC_Coerce (\<lambda>c x q. Coerce L c x q) fs optional v p"
| "Coerce L (mapSetC sel fmaps) v p =
     (if ValueOf_Kind v \<noteq> Map then Err \<lparr>want = ''map'', got = v, path = p\<rparr>
      else if \<not> admits_string v then Panic NotAssignable
      else (case MapIndex v (VString sel) of
              None \<Rightarrow> Err \<lparr>want = ''supported selector'', got = VNil, path = p @ [''.'', sel]\<rparr>
            | Some selector \<Rightarrow> mapSet_loop (\<lambda>c x q. Coerce L c x q) sel fmaps selector v p))"

section \<open>The constructor of the field map set, and the rendering of an error\<close>

text \<open>
  \<^verbatim>\<open>FieldMapSet\<close>: the loop over \<^verbatim>\<open>maps\<close> panics at the first candidate that is not a
  \<^verbatim>\<open>fieldMapC\<close> or whose \<^verbatim>\<open>fields[selector]\<close> is nil; \<open>Inl\<close> is the panic.
\<close>

fun FieldMapSet_loop :: "string \<Rightarrow> checker list \<Rightarrow> (Fields \<times> Optional) list \<Rightarrow> panic + checker" where
  "FieldMapSet_loop sel [] fmaps = Inr (mapSetC sel fmaps)"
| "FieldMapSet_loop sel (m # maps) fmaps =
     (case m of
        fieldMapC fs optional \<Rightarrow>
          (case map_of fs sel of
             None \<Rightarrow> Inl (Message ''FieldMapSet has a FieldMap with a missing selector'')
           | Some checker \<Rightarrow> FieldMapSet_loop sel maps (fmaps @ [(fs, optional)]))
      | _ \<Rightarrow> Inl (Message ''FieldMapSet got a non-FieldMap checker''))"

definition FieldMapSet :: "string \<Rightarrow> checker list \<Rightarrow> panic + checker" where
  "FieldMapSet sel maps = FieldMapSet_loop sel maps []"

text \<open>
  \<^verbatim>\<open>error.String\<close>: \<^verbatim>\<open>e.path[0]\<close> is read first, and indexing an empty slice panics.
  \<^verbatim>\<open>strings.Join(_, "")\<close> is \<open>concat\<close>.
\<close>

definition error_String :: "lib \<Rightarrow> error \<Rightarrow> panic + string" where
  "error_String L e =
     (case path e of
        [] \<Rightarrow> Inl IndexOutOfRange
      | s # rest \<Rightarrow>
          (let pth = (if s = ''.'' then concat rest else concat (path e)) in
           if want e = [] then Inr (pth @ '': unsupported value'')
           else if got e = VNil then Inr (pth @ '': expected '' @ want e @ '', got nothing'')
           else Inr (pth @ '': expected '' @ want e @ '', got '' @ Sprintf_v L (got e))))"

text \<open>
  An instance of the library, for evaluating the checkers on concrete inputs: strings,
  booleans, integers and nil are rendered as \<^verbatim>\<open>fmt\<close> renders them, every other value
  as the empty string, and every string compiles as a regular expression.
\<close>

definition testlib :: lib where
  "testlib = \<lparr>Sprint = (\<lambda>v. case v of VString s \<Rightarrow> s | VBool b \<Rightarrow> (if b then ''true'' else ''false'')
                              | VNum k n \<Rightarrow> Itoa n | VNil \<Rightarrow> ''<nil>'' | _ \<Rightarrow> []),
              Sprintf_v = (\<lambda>v. case v of VString s \<Rightarrow> ''\"'' @ s @ ''\"'' | VBool b \<Rightarrow> (if b then ''true'' else ''false'')
                              | VNum k n \<Rightarrow> Itoa n | VNil \<Rightarrow> ''<nil>'' | _ \<Rightarrow> []),
              regexp_Compile = (\<lambda>s. True)\<rparr>"

text \<open>
  A Go map has one entry per key, and a key of interface type holds a hashable value.
\<close>

definition go_map :: "(value \<times> value) list \<Rightarrow> bool" where
  "go_map kvs = (distinct (map fst kvs) \<and> list_all hashable (map fst kvs))"

text \<open>Two candidates of a field map set, selected by the field \<^verbatim>\<open>kind\<close>.\<close>

definition kindA :: "Fields \<times> Optional" where
  "kindA = ([(''kind'', constC (VString ''a'')), (''x'', intC)], [])"

definition kindB :: "Fields \<times> Optional" where
  "kindB = ([(''kind'', constC (VString ''b'')), (''y'', stringC)], [])"






text \<open>
  Two calls agree when both return a value or both return an error; a call that panics
  agrees with any other.
\<close>

fun agree :: "outcome \<Rightarrow> outcome \<Rightarrow> bool" where
  "agree (Panic x) b = True"
| "agree a (Panic y) = True"
| "agree (Ok r) (Ok r') = True"
| "agree (Err e) (Err e') = True"
| "agree a b = False"










section \<open>A required field that is absent\<close>

text \<open>
  C1. A declared field that is absent from the input and not optional is coerced with
  the nil value. When its checker is \<^verbatim>\<open>Bool()\<close>, no error is returned:
  \<^verbatim>\<open>reflect.TypeOf(nil).Kind()\<close> panics. \<^verbatim>\<open>FieldMap({"a": Bool()}, [])\<close> on the empty
  map, with interface keys or with string keys, at any path, panics.
\<close>

theorem fieldMap_required_bool_absent:
  "Coerce L (FieldMap [(''a'', boolC)] []) (VMap KeyInterface []) p = Panic NilTypeCall
   \<and> Coerce L (FieldMap [(''a'', boolC)] []) (VMap (KeyKind String) []) p = Panic NilTypeCall"
  by (simp add: FieldMap_def fieldMapC_Coerce_def MapIndex_def TypeOf_Kind_def)

lemma admits_string_kind: "admits_string v \<Longrightarrow> ValueOf_Kind v = Map"
  by (cases v) auto

text \<open>The checker of an absent field that is not optional is called with nil.\<close>

lemma fieldMapC_absent_required:
  "admits_string v \<Longrightarrow> MapIndex v (VString k) = None \<Longrightarrow> \<not> isOptional optional k \<Longrightarrow>
   Coerce L (fieldMapC ((k, c) # fs) optional) v p
     = (case Coerce L c VNil (p @ [''.'', k]) of
          Ok newv \<Rightarrow> fields_loop (\<lambda>c x k. Coerce L c x (p @ [''.'', k])) optional v fs
                       (AList.update (VString k) newv [])
        | Err e \<Rightarrow> Err e
        | Panic x \<Rightarrow> Panic x)"
  by (simp add: fieldMapC_Coerce_def admits_string_kind)

section \<open>Int and Float\<close>

text \<open>
  C6. The nil value is not an integer and not a float, and neither \<^verbatim>\<open>Int()\<close> nor
  \<^verbatim>\<open>Float()\<close> rejects it with an error: both panic, in \<^verbatim>\<open>reflect.TypeOf(nil).Kind()\<close>.
\<close>

theorem intC_floatC_nil:
  "Coerce L intC VNil p = Panic NilTypeCall \<and> Coerce L floatC VNil p = Panic NilTypeCall"
  by (simp add: TypeOf_Kind_def)

text \<open>
  On every other value the two checkers do what their names say: a signed integer of any
  width is returned as an \<^verbatim>\<open>int64\<close> and a float as a \<^verbatim>\<open>float64\<close>, with the same
  number, and everything else is rejected with \<^verbatim>\<open>int\<close> and with \<^verbatim>\<open>float\<close>.
\<close>

lemma intC_accepts:
  "Coerce L intC v p = Ok r \<longleftrightarrow>
     (\<exists>k n. v = VNum k n \<and> k \<in> {KInt, KInt8, KInt16, KInt32, KInt64} \<and> r = VNum KInt64 n)"
  by (cases v) (auto simp: TypeOf_Kind_def)

lemma intC_rejects:
  "v \<noteq> VNil \<Longrightarrow> \<not> (\<exists>k n. v = VNum k n \<and> k \<in> {KInt, KInt8, KInt16, KInt32, KInt64})
   \<Longrightarrow> Coerce L intC v p = Err \<lparr>want = ''int'', got = v, path = p\<rparr>"
  by (cases v) (auto simp: TypeOf_Kind_def)

lemma floatC_accepts:
  "Coerce L floatC v p = Ok r \<longleftrightarrow> (\<exists>k x. v = VFloat k x \<and> r = VFloat KFloat64 x)"
  by (cases v) (auto simp: TypeOf_Kind_def intro: fkind.exhaust)

lemma floatC_rejects:
  "v \<noteq> VNil \<Longrightarrow> \<not> (\<exists>k x. v = VFloat k x)
   \<Longrightarrow> Coerce L floatC v p = Err \<lparr>want = ''float'', got = v, path = p\<rparr>"
  by (cases v) (auto simp: TypeOf_Kind_def)

section \<open>Rendering an error\<close>

text \<open>
  C10. Rendering an error whose path is empty panics with an index out of range, and
  produces no string.
\<close>

theorem error_String_empty_path:
  "path e = [] \<Longrightarrow> error_String L e = Inl IndexOutOfRange"
  by (simp add: error_String_def)

theorem error_String_empty_path_witness:
  "error_String testlib \<lparr>want = ''bool'', got = VNil, path = []\<rparr> = Inl IndexOutOfRange"
  using error_String_empty_path [of "\<lparr>want = ''bool'', got = VNil, path = []\<rparr>" testlib] by simp

lemma error_String_nonempty_path:
  "path e \<noteq> [] \<Longrightarrow> \<exists>s. error_String L e = Inr s"
  by (auto simp: error_String_def Let_def split: list.splits)

section \<open>Construction of a field map set\<close>

lemma FieldMapSet_loop_good:
  "\<forall>fm \<in> set cands. map_of (fst fm) sel \<noteq> None \<Longrightarrow>
   FieldMapSet_loop sel (map (\<lambda>fm. fieldMapC (fst fm) (snd fm)) cands) fmaps
     = Inr (mapSetC sel (fmaps @ cands))"
  by (induction cands arbitrary: fmaps) auto

lemma FieldMapSet_loop_bad:
  "m \<in> set maps \<Longrightarrow> \<not> (\<exists>fs opt. m = fieldMapC fs opt \<and> map_of fs sel \<noteq> None) \<Longrightarrow>
   FieldMapSet_loop sel maps fmaps = Inl (Message ''FieldMapSet has a FieldMap with a missing selector'')
   \<or> FieldMapSet_loop sel maps fmaps = Inl (Message ''FieldMapSet got a non-FieldMap checker'')"
proof (induction maps arbitrary: fmaps)
  case Nil
  then show ?case by simp
next
  case (Cons a maps)
  show ?case
  proof (cases "\<exists>fs opt. a = fieldMapC fs opt \<and> map_of fs sel \<noteq> None")
    case True
    then obtain fs opt c where a: "a = fieldMapC fs opt" "map_of fs sel = Some c" by auto
    from True Cons.prems have "m \<in> set maps" by auto
    from Cons.IH [OF this Cons.prems(2)] show ?thesis using a by simp
  next
    case False
    then show ?thesis by (cases a) (auto split: option.splits)
  qed
qed

lemma FieldMapSet_loop_prefix:
  "\<forall>fm \<in> set pre. map_of (fst fm) sel \<noteq> None \<Longrightarrow>
   FieldMapSet_loop sel (map (\<lambda>fm. fieldMapC (fst fm) (snd fm)) pre @ rest) fmaps
     = FieldMapSet_loop sel rest (fmaps @ pre)"
  by (induction pre arbitrary: fmaps) auto

text \<open>
  C7. When every candidate is a \<^verbatim>\<open>fieldMapC\<close> that declares the selector field,
  \<^verbatim>\<open>FieldMapSet\<close> returns the \<^verbatim>\<open>mapSetC\<close> of these candidates, in which every candidate
  declares the selector. When some candidate is not a \<^verbatim>\<open>fieldMapC\<close>, or is one that does
  not declare the selector field, the constructor panics and returns no checker: with the
  message of the first such candidate in the list.
\<close>

theorem FieldMapSet_checks_at_construction:
  "((\<forall>fm \<in> set cands. map_of (fst fm) sel \<noteq> None) \<longrightarrow>
      FieldMapSet sel (map (\<lambda>fm. fieldMapC (fst fm) (snd fm)) cands) = Inr (mapSetC sel cands))
   \<and> ((\<forall>fm \<in> set pre. map_of (fst fm) sel \<noteq> None) \<and> (\<forall>fs optional. m \<noteq> fieldMapC fs optional) \<longrightarrow>
      FieldMapSet sel (map (\<lambda>fm. fieldMapC (fst fm) (snd fm)) pre @ m # post)
        = Inl (Message ''FieldMapSet got a non-FieldMap checker''))
   \<and> ((\<forall>fm \<in> set pre. map_of (fst fm) sel \<noteq> None) \<and> map_of fs sel = None \<longrightarrow>
      FieldMapSet sel (map (\<lambda>fm. fieldMapC (fst fm) (snd fm)) pre @ fieldMapC fs optional # post)
        = Inl (Message ''FieldMapSet has a FieldMap with a missing selector''))
   \<and> ((\<exists>m \<in> set maps. \<not> (\<exists>fs opt. m = fieldMapC fs opt \<and> map_of fs sel \<noteq> None)) \<longrightarrow>
      FieldMapSet sel maps = Inl (Message ''FieldMapSet has a FieldMap with a missing selector'')
      \<or> FieldMapSet sel maps = Inl (Message ''FieldMapSet got a non-FieldMap checker''))"
proof (intro conjI impI)
  assume "\<forall>fm \<in> set cands. map_of (fst fm) sel \<noteq> None"
  then show "FieldMapSet sel (map (\<lambda>fm. fieldMapC (fst fm) (snd fm)) cands) = Inr (mapSetC sel cands)"
    using FieldMapSet_loop_good [of cands sel "[]"] by (simp add: FieldMapSet_def)
next
  assume a: "(\<forall>fm \<in> set pre. map_of (fst fm) sel \<noteq> None) \<and> (\<forall>fs optional. m \<noteq> fieldMapC fs optional)"
  then have "FieldMapSet_loop sel (m # post) ([] @ pre) = Inl (Message ''FieldMapSet got a non-FieldMap checker'')"
    by (cases m) auto
  then show "FieldMapSet sel (map (\<lambda>fm. fieldMapC (fst fm) (snd fm)) pre @ m # post)
        = Inl (Message ''FieldMapSet got a non-FieldMap checker'')"
    using a FieldMapSet_loop_prefix [of pre sel "m # post" "[]"] by (simp add: FieldMapSet_def)
next
  assume a: "(\<forall>fm \<in> set pre. map_of (fst fm) sel \<noteq> None) \<and> map_of fs sel = None"
  then show "FieldMapSet sel (map (\<lambda>fm. fieldMapC (fst fm) (snd fm)) pre @ fieldMapC fs optional # post)
        = Inl (Message ''FieldMapSet has a FieldMap with a missing selector'')"
    using FieldMapSet_loop_prefix [of pre sel "fieldMapC fs optional # post" "[]"]
    by (simp add: FieldMapSet_def)
next
  assume "\<exists>m \<in> set maps. \<not> (\<exists>fs opt. m = fieldMapC fs opt \<and> map_of fs sel \<noteq> None)"
  then show "FieldMapSet sel maps = Inl (Message ''FieldMapSet has a FieldMap with a missing selector'')
      \<or> FieldMapSet sel maps = Inl (Message ''FieldMapSet got a non-FieldMap checker'')"
    using FieldMapSet_loop_bad [of _ maps sel "[]"] unfolding FieldMapSet_def by auto
qed

theorem FieldMapSet_checks_at_construction_witness:
  "FieldMapSet ''kind'' [fieldMapC (fst kindA) (snd kindA), fieldMapC (fst kindB) (snd kindB)]
     = Inr (mapSetC ''kind'' [kindA, kindB])
   \<and> FieldMapSet ''kind'' [fieldMapC (fst kindA) (snd kindA), fieldMapC [(''x'', intC)] [], anyC]
     = Inl (Message ''FieldMapSet has a FieldMap with a missing selector'')
   \<and> FieldMapSet ''kind'' [fieldMapC (fst kindA) (snd kindA), anyC, fieldMapC [(''x'', intC)] []]
     = Inl (Message ''FieldMapSet got a non-FieldMap checker'')"
proof -
  have g: "\<forall>fm \<in> set [kindA, kindB]. map_of (fst fm) ''kind'' \<noteq> None"
    "\<forall>fm \<in> set [kindA]. map_of (fst fm) ''kind'' \<noteq> None"
    by (simp_all add: kindA_def kindB_def)
  note inst = FieldMapSet_checks_at_construction [where sel = "''kind''" and pre = "[kindA]"
      and maps = "[]"]
  from inst [where cands = "[kindA, kindB]" and m = anyC and fs = "[]"] g(1)
  have a: "FieldMapSet ''kind'' [fieldMapC (fst kindA) (snd kindA), fieldMapC (fst kindB) (snd kindB)]
     = Inr (mapSetC ''kind'' [kindA, kindB])" by simp
  from inst [where cands = "[]" and m = anyC and fs = "[(''x'', intC)]" and optional = "[]" and post = "[anyC]"] g(2)
  have b: "FieldMapSet ''kind'' [fieldMapC (fst kindA) (snd kindA), fieldMapC [(''x'', intC)] [], anyC]
     = Inl (Message ''FieldMapSet has a FieldMap with a missing selector'')" by simp
  from inst [where cands = "[]" and m = anyC and fs = "[]" and post = "[fieldMapC [(''x'', intC)] []]"] g(2)
  have c: "FieldMapSet ''kind'' [fieldMapC (fst kindA) (snd kindA), anyC, fieldMapC [(''x'', intC)] []]
     = Inl (Message ''FieldMapSet got a non-FieldMap checker'')" by simp
  from a b c show ?thesis by blast
qed

section \<open>OneOf\<close>

lemma oneOf_loop_skip:
  "\<forall>c \<in> set pre. \<exists>e. co c = Err e \<Longrightarrow> oneOf_loop co (pre @ rest) p = oneOf_loop co rest p"
  by (induction pre) auto

text \<open>
  C3. \<^verbatim>\<open>OneOf\<close> coerces the same value at the same path with its options in the order
  of declaration. When the options before one return errors and that one returns a value,
  this value is the result, whatever the later options would do; when that one panics, so
  does the call. When every option returns an error, the result is the error with the
  empty \<^verbatim>\<open>want\<close>, the nil \<^verbatim>\<open>got\<close> and the path given: no error of an option is returned.
\<close>

theorem oneOfC_first_success:
  "(options = pre @ opt # post \<and> (\<forall>c \<in> set pre. \<exists>e. Coerce L c v p = Err e)
      \<and> Coerce L opt v p = Ok r \<longrightarrow> Coerce L (oneOfC options) v p = Ok r)
   \<and> (options = pre @ opt # post \<and> (\<forall>c \<in> set pre. \<exists>e. Coerce L c v p = Err e)
      \<and> Coerce L opt v p = Panic x \<longrightarrow> Coerce L (oneOfC options) v p = Panic x)
   \<and> ((\<forall>c \<in> set options. \<exists>e. Coerce L c v p = Err e)
      \<longrightarrow> Coerce L (oneOfC options) v p = Err \<lparr>want = [], got = VNil, path = p\<rparr>)"
proof (intro conjI impI)
  assume "options = pre @ opt # post \<and> (\<forall>c \<in> set pre. \<exists>e. Coerce L c v p = Err e)
      \<and> Coerce L opt v p = Ok r"
  then show "Coerce L (oneOfC options) v p = Ok r"
    using oneOf_loop_skip [of pre "\<lambda>c. Coerce L c v p" "opt # post" p] by simp
next
  assume "options = pre @ opt # post \<and> (\<forall>c \<in> set pre. \<exists>e. Coerce L c v p = Err e)
      \<and> Coerce L opt v p = Panic x"
  then show "Coerce L (oneOfC options) v p = Panic x"
    using oneOf_loop_skip [of pre "\<lambda>c. Coerce L c v p" "opt # post" p] by simp
next
  assume "\<forall>c \<in> set options. \<exists>e. Coerce L c v p = Err e"
  then show "Coerce L (oneOfC options) v p = Err \<lparr>want = [], got = VNil, path = p\<rparr>"
    using oneOf_loop_skip [of options "\<lambda>c. Coerce L c v p" "[]" p] by simp
qed

theorem oneOfC_first_success_witness:
  "Coerce testlib (oneOfC [boolC, intC, anyC]) (VNum KInt8 5) [''.''] = Ok (VNum KInt64 5)
   \<and> Coerce testlib (oneOfC [boolC, intC]) VNil [''.''] = Panic NilTypeCall
   \<and> Coerce testlib (oneOfC [boolC, intC]) (VString ''x'') [''.'']
       = Err \<lparr>want = [], got = VNil, path = [''.'']\<rparr>"
  using oneOfC_first_success [of "[boolC, intC, anyC]" "[boolC]" intC "[anyC]" testlib "VNum KInt8 5" "[''.'']" "VNum KInt64 5"]
    oneOfC_first_success [of "[boolC, intC]" "[]" boolC "[intC]" testlib VNil "[''.'']" _ NilTypeCall]
    oneOfC_first_success [of "[boolC, intC]" _ _ _ testlib "VString ''x''" "[''.'']"]
  by (simp add: TypeOf_Kind_def)

section \<open>List\<close>

lemma list_loop_all_ok:
  "length ys = length xs \<Longrightarrow> \<forall>j<length xs. co (i + j) (xs ! j) = Ok (ys ! j)
   \<Longrightarrow> list_loop co i xs out = Ok (VSlice (out @ ys))"
proof (induction xs arbitrary: i ys out)
  case Nil
  then show ?case by simp
next
  case (Cons x xs)
  then obtain y ys' where ys: "ys = y # ys'" by (cases ys) auto
  have hd: "co i x = Ok y" using Cons.prems(2) ys by force
  have "\<forall>j<length xs. co (Suc i + j) (xs ! j) = Ok (ys' ! j)"
    using Cons.prems(2) ys by force
  with Cons.IH [of ys' "Suc i" "out @ [y]"] Cons.prems(1) ys hd show ?case by simp
qed

lemma list_loop_first_not_ok:
  "n < length xs \<Longrightarrow> \<forall>j<n. \<exists>y. co (i + j) (xs ! j) = Ok y
   \<Longrightarrow> list_loop co i xs out
       = (case co (i + n) (xs ! n) of Ok y \<Rightarrow> list_loop co i xs out | r \<Rightarrow> r)"
proof (induction xs arbitrary: i n out)
  case Nil
  then show ?case by simp
next
  case (Cons x xs)
  show ?case
  proof (cases n)
    case 0
    then show ?thesis by (simp split: outcome.splits)
  next
    case (Suc m)
    from Cons.prems(2) Suc obtain y where y: "co i x = Ok y" by force
    have m: "m < length xs" using Cons.prems(1) Suc by simp
    have "\<forall>j<m. \<exists>y. co (Suc i + j) (xs ! j) = Ok y"
      using Cons.prems(2) Suc by force
    from Cons.IH [OF m this, of "out @ [y]"] y Suc show ?thesis
      by (simp split: outcome.splits)
  qed
qed

lemma list_loop_Ok_D:
  "list_loop co i xs out = Ok r \<Longrightarrow>
   \<exists>ys. r = VSlice (out @ ys) \<and> length ys = length xs
        \<and> (\<forall>j<length xs. co (i + j) (xs ! j) = Ok (ys ! j))"
proof (induction xs arbitrary: i out)
  case Nil
  then show ?case by simp
next
  case (Cons x xs)
  from Cons.prems obtain y where y: "co i x = Ok y"
    and rest: "list_loop co (Suc i) xs (out @ [y]) = Ok r"
    by (auto split: outcome.splits)
  from Cons.IH [OF rest] obtain ys where ys: "r = VSlice ((out @ [y]) @ ys)"
    "length ys = length xs" "\<forall>j<length xs. co (Suc i + j) (xs ! j) = Ok (ys ! j)" by blast
  have "\<forall>j<length (x # xs). co (i + j) ((x # xs) ! j) = Ok ((y # ys) ! j)"
  proof (intro allI impI)
    fix j assume "j < length (x # xs)"
    then show "co (i + j) ((x # xs) ! j) = Ok ((y # ys) ! j)"
      using y ys(3) by (cases j) auto
  qed
  with ys show ?case by (intro exI [of _ "y # ys"]) simp
qed

text \<open>
  C4. \<^verbatim>\<open>List(elem)\<close> rejects a value that is not a slice with the error \<^verbatim>\<open>list\<close>. On a
  slice, element \<open>i\<close> is coerced with \<open>elem\<close> at the path extended by \<^verbatim>\<open>[\<close>, the decimal
  rendering of \<open>i\<close> and \<^verbatim>\<open>]\<close>. When all elements are coerced, the result is the slice of
  the coerced elements, of the same length and in the same order; when the elements before
  index \<open>n\<close> are coerced and element \<open>n\<close> returns an error, this error is the result. A
  result that is a value is always the slice of the coerced elements of a slice.
\<close>

theorem listC_elementwise:
  "(ValueOf_Kind v \<noteq> Slice \<longrightarrow>
      Coerce L (listC elem) v p = Err \<lparr>want = ''list'', got = v, path = p\<rparr>)
   \<and> (length ys = length xs
        \<and> (\<forall>i<length xs. Coerce L elem (xs ! i) (p @ [''['', Itoa (int i), '']'']) = Ok (ys ! i))
      \<longrightarrow> Coerce L (listC elem) (VSlice xs) p = Ok (VSlice ys))
   \<and> (n < length xs
        \<and> (\<forall>i<n. \<exists>y. Coerce L elem (xs ! i) (p @ [''['', Itoa (int i), '']'']) = Ok y)
        \<and> Coerce L elem (xs ! n) (p @ [''['', Itoa (int n), '']'']) = Err e
      \<longrightarrow> Coerce L (listC elem) (VSlice xs) p = Err e)
   \<and> (Coerce L (listC elem) v p = Ok r \<longrightarrow>
        (\<exists>xs ys. v = VSlice xs \<and> r = VSlice ys \<and> length ys = length xs
           \<and> (\<forall>i<length xs. Coerce L elem (xs ! i) (p @ [''['', Itoa (int i), '']'']) = Ok (ys ! i))))"
proof (intro conjI impI)
  assume "ValueOf_Kind v \<noteq> Slice"
  then show "Coerce L (listC elem) v p = Err \<lparr>want = ''list'', got = v, path = p\<rparr>" by simp
next
  assume "length ys = length xs
        \<and> (\<forall>i<length xs. Coerce L elem (xs ! i) (p @ [''['', Itoa (int i), '']'']) = Ok (ys ! i))"
  then show "Coerce L (listC elem) (VSlice xs) p = Ok (VSlice ys)"
    using list_loop_all_ok [of ys xs "\<lambda>i x. Coerce L elem x (p @ [''['', Itoa (int i), '']''])" 0 "[]"]
    by simp
next
  assume "n < length xs
        \<and> (\<forall>i<n. \<exists>y. Coerce L elem (xs ! i) (p @ [''['', Itoa (int i), '']'']) = Ok y)
        \<and> Coerce L elem (xs ! n) (p @ [''['', Itoa (int n), '']'']) = Err e"
  then show "Coerce L (listC elem) (VSlice xs) p = Err e"
    using list_loop_first_not_ok [of n xs "\<lambda>i x. Coerce L elem x (p @ [''['', Itoa (int i), '']''])" 0 "[]"]
    by simp
next
  assume ok: "Coerce L (listC elem) v p = Ok r"
  then have k: "ValueOf_Kind v = Slice" by (auto split: if_splits)
  then obtain xs where v: "v = VSlice xs" by (cases v) auto
  from ok v list_loop_Ok_D [of "\<lambda>i x. Coerce L elem x (p @ [''['', Itoa (int i), '']''])" 0 xs "[]" r]
  show "\<exists>xs ys. v = VSlice xs \<and> r = VSlice ys \<and> length ys = length xs
           \<and> (\<forall>i<length xs. Coerce L elem (xs ! i) (p @ [''['', Itoa (int i), '']'']) = Ok (ys ! i))"
    by auto
qed

lemma Itoa_small: "Itoa 0 = ''0''" "Itoa 1 = ''1''" "Itoa 2 = ''2''"
  by (simp_all add: Itoa_def utoa.simps)

theorem listC_elementwise_witness:
  "Coerce testlib (listC intC) (VBool True) [''.''] = Err \<lparr>want = ''list'', got = VBool True, path = [''.'']\<rparr>
   \<and> Coerce testlib (listC intC) (VSlice [VNum KInt8 1, VNum KInt 2]) [''.'']
       = Ok (VSlice [VNum KInt64 1, VNum KInt64 2])
   \<and> Coerce testlib (listC intC) (VSlice [VNum KInt8 1, VString ''x'', VNil]) [''.'']
       = Err \<lparr>want = ''int'', got = VString ''x'', path = [''.'', ''['', ''1'', '']'']\<rparr>"
proof -
  have lt2: "\<And>i P. (\<forall>i<2. P (i::nat)) = (P 0 \<and> P 1)"
    by (auto simp: less_Suc_eq numeral_2_eq_2)
  have lt1: "\<And>P. (\<forall>i<(1::nat). P i) = P 0" by auto
  show ?thesis
  using listC_elementwise [of "VBool True" testlib intC "[''.'']" "[]" "[]" 0 _ _]
    listC_elementwise [of VNil testlib intC "[''.'']" "[VNum KInt64 1, VNum KInt64 2]" "[VNum KInt8 1, VNum KInt 2]" 0]
    listC_elementwise [of VNil testlib intC "[''.'']" "[]" "[VNum KInt8 1, VString ''x'', VNil]" 1
        "\<lparr>want = ''int'', got = VString ''x'', path = [''.'', ''['', ''1'', '']'']\<rparr>"]
  by (simp add: TypeOf_Kind_def Itoa_small lt2 lt1)
qed

section \<open>Map\<close>

lemma oneOf_loop_Ok_D:
  "oneOf_loop co options p = Ok r \<Longrightarrow> \<exists>c \<in> set options. co c = Ok r"
  by (induction options) (auto split: outcome.splits)

lemma hashable_kind: "hashable v \<Longrightarrow> ValueOf_Kind v \<noteq> Slice \<and> ValueOf_Kind v \<noteq> Map"
  by (cases v) auto

lemma Coerce_hashable: "Coerce L c v p = Ok r \<Longrightarrow> hashable v \<Longrightarrow> hashable r"
proof (induction L c v p arbitrary: r rule: Coerce.induct)
  case (3 L options v p)
  from oneOf_loop_Ok_D [OF "3.prems"(1) [simplified]] obtain c
    where "c \<in> set options" "Coerce L c v p = Ok r" by auto
  with "3.IH" "3.prems"(2) show ?case by blast
qed (auto simp: TypeOf_Kind_def Let_def fieldMapC_Coerce_def dest: hashable_kind
          split: if_splits option.splits)

lemma map_loop_all_ok:
  "length ks' = length ks \<Longrightarrow> length vs' = length ks \<Longrightarrow>
   \<forall>j<length ks. cok (ks ! j) = Ok (ks' ! j) \<and> hashable (ks' ! j)
       \<and> (\<exists>x. MapIndex rv (ks ! j) = Some x \<and> cov (ks ! j) x = Ok (vs' ! j))
   \<Longrightarrow> map_loop cok cov rv ks out = Ok (VMap KeyInterface (AList.updates ks' vs' out))"
proof (induction ks arbitrary: ks' vs' out)
  case Nil
  then show ?case by simp
next
  case (Cons k ks)
  from Cons.prems(1) obtain k' ks'' where ks': "ks' = k' # ks''" by (cases ks') auto
  from Cons.prems(2) obtain v' vs'' where vs': "vs' = v' # vs''" by (cases vs') auto
  from Cons.prems(3) [rule_format, of 0] ks' vs' obtain x
    where hd: "cok k = Ok k'" "hashable k'" "MapIndex rv k = Some x" "cov k x = Ok v'"
    by auto
  have tl: "\<forall>j<length ks. cok (ks ! j) = Ok (ks'' ! j) \<and> hashable (ks'' ! j)
       \<and> (\<exists>x. MapIndex rv (ks ! j) = Some x \<and> cov (ks ! j) x = Ok (vs'' ! j))"
    using Cons.prems(3) ks' vs' by force
  from Cons.IH [of ks'' vs'' "AList.update k' v' out", OF _ _ tl] Cons.prems(1,2) ks' vs' hd
  show ?case by simp
qed

lemma map_loop_first_not_ok:
  "n < length ks \<Longrightarrow>
   \<forall>j<n. \<exists>k' x v'. cok (ks ! j) = Ok k' \<and> hashable k' \<and> MapIndex rv (ks ! j) = Some x
            \<and> cov (ks ! j) x = Ok v' \<Longrightarrow>
   MapIndex rv (ks ! n) = Some x \<Longrightarrow>
   (cok (ks ! n) = Err e \<longrightarrow> map_loop cok cov rv ks out = Err e)
   \<and> (cok (ks ! n) = Panic q \<longrightarrow> map_loop cok cov rv ks out = Panic q)
   \<and> ((\<exists>k'. cok (ks ! n) = Ok k') \<and> cov (ks ! n) x = Err e \<longrightarrow> map_loop cok cov rv ks out = Err e)
   \<and> ((\<exists>k'. cok (ks ! n) = Ok k') \<and> cov (ks ! n) x = Panic q \<longrightarrow> map_loop cok cov rv ks out = Panic q)"
proof (induction ks arbitrary: n out)
  case Nil
  then show ?case by simp
next
  case (Cons k ks)
  show ?case
  proof (cases n)
    case 0
    with Cons.prems(3) show ?thesis by auto
  next
    case (Suc m)
    from Cons.prems(2) [rule_format, of 0] Suc obtain k' y v'
      where hd: "cok k = Ok k'" "hashable k'" "MapIndex rv k = Some y" "cov k y = Ok v'"
      by auto
    have m: "m < length ks" using Cons.prems(1) Suc by simp
    have pre: "\<forall>j<m. \<exists>k' x v'. cok (ks ! j) = Ok k' \<and> hashable k' \<and> MapIndex rv (ks ! j) = Some x
            \<and> cov (ks ! j) x = Ok v'"
      using Cons.prems(2) Suc by force
    have at: "MapIndex rv (ks ! m) = Some x" using Cons.prems(3) Suc by simp
    from Cons.IH [OF m pre at, of "AList.update k' v' out"] hd Suc show ?thesis by simp
  qed
qed


lemma MapIndex_nth:
  "distinct (map fst kvs) \<Longrightarrow> i < length kvs \<Longrightarrow> MapIndex (VMap kt kvs) (fst (kvs ! i)) = Some (snd (kvs ! i))"
  by (simp add: MapIndex_def)

lemma mapC_prefix_ok:
  assumes "go_map kvs" and "n \<le> length kvs"
    and "\<forall>i<n. \<exists>k' v'. Coerce L key (fst (kvs ! i)) p = Ok k'
              \<and> Coerce L val (snd (kvs ! i)) (p @ [''.'', Sprint L (fst (kvs ! i))]) = Ok v'"
  shows "\<forall>j<n. \<exists>k' x v'. Coerce L key (map fst kvs ! j) p = Ok k' \<and> hashable k'
        \<and> MapIndex (VMap kt kvs) (map fst kvs ! j) = Some x
        \<and> Coerce L val x (p @ [''.'', Sprint L (map fst kvs ! j)]) = Ok v'"
proof (intro allI impI)
  fix j assume j: "j < n"
  then have jl: "j < length kvs" using assms(2) by simp
  have hk: "hashable (fst (kvs ! j))" using assms(1) jl by (simp add: go_map_def list_all_length)
  from assms(3) j obtain k' v' where k: "Coerce L key (fst (kvs ! j)) p = Ok k'"
    and v: "Coerce L val (snd (kvs ! j)) (p @ [''.'', Sprint L (fst (kvs ! j))]) = Ok v'" by blast
  have "hashable k'" by (rule Coerce_hashable [OF k hk])
  moreover have "MapIndex (VMap kt kvs) (fst (kvs ! j)) = Some (snd (kvs ! j))"
    using assms(1) jl by (intro MapIndex_nth) (simp_all add: go_map_def)
  ultimately show "\<exists>k' x v'. Coerce L key (map fst kvs ! j) p = Ok k' \<and> hashable k'
        \<and> MapIndex (VMap kt kvs) (map fst kvs ! j) = Some x
        \<and> Coerce L val x (p @ [''.'', Sprint L (map fst kvs ! j)]) = Ok v'"
    using k v jl by simp
qed

text \<open>
  C5. \<^verbatim>\<open>Map(key, value)\<close> rejects a value that is not a map with the error \<^verbatim>\<open>map\<close>. On a
  map, the key of an entry is coerced with \<open>key\<close> at the path given, and its value with
  \<open>value\<close> at the path extended by \<^verbatim>\<open>.\<close> and \<^verbatim>\<open>fmt.Sprint\<close> of the key. When every
  entry is coerced, the result is a map that sends the coerced keys to the coerced values
  (the later entry where two coerced keys are equal). When the entries before entry \<open>n\<close>
  are coerced and the key of entry \<open>n\<close> returns an error, or its key is coerced and its value
  returns an error, this error is the result.
\<close>

theorem mapC_entrywise:
  "(ValueOf_Kind v \<noteq> Map \<longrightarrow>
      Coerce L (mapC key val) v p = Err \<lparr>want = ''map'', got = v, path = p\<rparr>)
   \<and> (go_map kvs \<and> length ks' = length kvs \<and> length vs' = length kvs
        \<and> (\<forall>i<length kvs. Coerce L key (fst (kvs ! i)) p = Ok (ks' ! i)
              \<and> Coerce L val (snd (kvs ! i)) (p @ [''.'', Sprint L (fst (kvs ! i))]) = Ok (vs' ! i))
      \<longrightarrow> (\<exists>out. Coerce L (mapC key val) (VMap kt kvs) p = Ok (VMap KeyInterface out)
             \<and> map_of out = Map.empty (ks' [\<mapsto>] vs')))
   \<and> (go_map kvs \<and> n < length kvs
        \<and> (\<forall>i<n. \<exists>k' v'. Coerce L key (fst (kvs ! i)) p = Ok k'
              \<and> Coerce L val (snd (kvs ! i)) (p @ [''.'', Sprint L (fst (kvs ! i))]) = Ok v')
        \<and> Coerce L key (fst (kvs ! n)) p = Err e
      \<longrightarrow> Coerce L (mapC key val) (VMap kt kvs) p = Err e)
   \<and> (go_map kvs \<and> n < length kvs
        \<and> (\<forall>i<n. \<exists>k' v'. Coerce L key (fst (kvs ! i)) p = Ok k'
              \<and> Coerce L val (snd (kvs ! i)) (p @ [''.'', Sprint L (fst (kvs ! i))]) = Ok v')
        \<and> (\<exists>k'. Coerce L key (fst (kvs ! n)) p = Ok k')
        \<and> Coerce L val (snd (kvs ! n)) (p @ [''.'', Sprint L (fst (kvs ! n))]) = Err e
      \<longrightarrow> Coerce L (mapC key val) (VMap kt kvs) p = Err e)"
proof (intro conjI impI)
  assume "ValueOf_Kind v \<noteq> Map"
  then show "Coerce L (mapC key val) v p = Err \<lparr>want = ''map'', got = v, path = p\<rparr>" by simp
next
  assume a: "go_map kvs \<and> length ks' = length kvs \<and> length vs' = length kvs
        \<and> (\<forall>i<length kvs. Coerce L key (fst (kvs ! i)) p = Ok (ks' ! i)
              \<and> Coerce L val (snd (kvs ! i)) (p @ [''.'', Sprint L (fst (kvs ! i))]) = Ok (vs' ! i))"
  have "\<forall>j<length (map fst kvs). Coerce L key (map fst kvs ! j) p = Ok (ks' ! j) \<and> hashable (ks' ! j)
       \<and> (\<exists>x. MapIndex (VMap kt kvs) (map fst kvs ! j) = Some x
             \<and> Coerce L val x (p @ [''.'', Sprint L (map fst kvs ! j)]) = Ok (vs' ! j))"
  proof (intro allI impI)
    fix j assume j: "j < length (map fst kvs)"
    then have jl: "j < length kvs" by simp
    have hk: "hashable (fst (kvs ! j))" using a jl by (simp add: go_map_def list_all_length)
    have k: "Coerce L key (fst (kvs ! j)) p = Ok (ks' ! j)" using a jl by blast
    have "hashable (ks' ! j)" by (rule Coerce_hashable [OF k hk])
    moreover have "MapIndex (VMap kt kvs) (fst (kvs ! j)) = Some (snd (kvs ! j))"
      using a jl by (intro MapIndex_nth) (simp_all add: go_map_def)
    ultimately show "Coerce L key (map fst kvs ! j) p = Ok (ks' ! j) \<and> hashable (ks' ! j)
       \<and> (\<exists>x. MapIndex (VMap kt kvs) (map fst kvs ! j) = Some x
             \<and> Coerce L val x (p @ [''.'', Sprint L (map fst kvs ! j)]) = Ok (vs' ! j))"
      using a jl by simp
  qed
  from map_loop_all_ok [where ks' = ks' and ks = "map fst kvs" and vs' = vs'
      and cok = "\<lambda>k. Coerce L key k p" and rv = "VMap kt kvs"
      and cov = "\<lambda>k x. Coerce L val x (p @ [''.'', Sprint L k])" and out = "[]", OF _ _ this] a
  have "Coerce L (mapC key val) (VMap kt kvs) p = Ok (VMap KeyInterface (AList.updates ks' vs' []))"
    by (simp add: MapKeys_def)
  then show "\<exists>out. Coerce L (mapC key val) (VMap kt kvs) p = Ok (VMap KeyInterface out)
             \<and> map_of out = Map.empty (ks' [\<mapsto>] vs')"
    by (simp add: updates_conv')
next
  assume a: "go_map kvs \<and> n < length kvs
        \<and> (\<forall>i<n. \<exists>k' v'. Coerce L key (fst (kvs ! i)) p = Ok k'
              \<and> Coerce L val (snd (kvs ! i)) (p @ [''.'', Sprint L (fst (kvs ! i))]) = Ok v')
        \<and> Coerce L key (fst (kvs ! n)) p = Err e"
  have pre: "\<forall>j<n. \<exists>k' x v'. Coerce L key (map fst kvs ! j) p = Ok k' \<and> hashable k'
        \<and> MapIndex (VMap kt kvs) (map fst kvs ! j) = Some x
        \<and> Coerce L val x (p @ [''.'', Sprint L (map fst kvs ! j)]) = Ok v'"
    using a by (intro mapC_prefix_ok) simp_all
  have at: "MapIndex (VMap kt kvs) (map fst kvs ! n) = Some (snd (kvs ! n))"
    using a MapIndex_nth [of kvs n] by (simp add: go_map_def)
  from map_loop_first_not_ok [where n = n and ks = "map fst kvs"
      and cok = "\<lambda>k. Coerce L key k p" and rv = "VMap kt kvs"
      and cov = "\<lambda>k x. Coerce L val x (p @ [''.'', Sprint L k])" and x = "snd (kvs ! n)"
      and e = e and out = "[]", OF _ pre at] a
  show "Coerce L (mapC key val) (VMap kt kvs) p = Err e" by (simp add: MapKeys_def)
next
  assume a: "go_map kvs \<and> n < length kvs
        \<and> (\<forall>i<n. \<exists>k' v'. Coerce L key (fst (kvs ! i)) p = Ok k'
              \<and> Coerce L val (snd (kvs ! i)) (p @ [''.'', Sprint L (fst (kvs ! i))]) = Ok v')
        \<and> (\<exists>k'. Coerce L key (fst (kvs ! n)) p = Ok k')
        \<and> Coerce L val (snd (kvs ! n)) (p @ [''.'', Sprint L (fst (kvs ! n))]) = Err e"
  have pre: "\<forall>j<n. \<exists>k' x v'. Coerce L key (map fst kvs ! j) p = Ok k' \<and> hashable k'
        \<and> MapIndex (VMap kt kvs) (map fst kvs ! j) = Some x
        \<and> Coerce L val x (p @ [''.'', Sprint L (map fst kvs ! j)]) = Ok v'"
    using a by (intro mapC_prefix_ok) simp_all
  have at: "MapIndex (VMap kt kvs) (map fst kvs ! n) = Some (snd (kvs ! n))"
    using a MapIndex_nth [of kvs n] by (simp add: go_map_def)
  from map_loop_first_not_ok [where n = n and ks = "map fst kvs"
      and cok = "\<lambda>k. Coerce L key k p" and rv = "VMap kt kvs"
      and cov = "\<lambda>k x. Coerce L val x (p @ [''.'', Sprint L k])" and x = "snd (kvs ! n)"
      and e = e and out = "[]", OF _ pre at] a
  show "Coerce L (mapC key val) (VMap kt kvs) p = Err e" by (simp add: MapKeys_def)
qed

theorem mapC_entrywise_witness:
  "Coerce testlib (mapC stringC intC) (VSlice []) [''.'']
      = Err \<lparr>want = ''map'', got = VSlice [], path = [''.'']\<rparr>
   \<and> (\<exists>out. Coerce testlib (mapC stringC intC)
               (VMap KeyInterface [(VString ''a'', VNum KInt8 1), (VString ''b'', VNum KInt16 2)]) [''.'']
             = Ok (VMap KeyInterface out)
          \<and> map_of out = Map.empty ([VString ''a'', VString ''b''] [\<mapsto>] [VNum KInt64 1, VNum KInt64 2]))
   \<and> Coerce testlib (mapC stringC intC)
        (VMap KeyInterface [(VString ''a'', VNum KInt8 1), (VBool True, VNum KInt16 2)]) [''.'']
      = Err \<lparr>want = ''string'', got = VBool True, path = [''.'']\<rparr>
   \<and> Coerce testlib (mapC stringC intC)
        (VMap KeyInterface [(VString ''a'', VNum KInt8 1), (VString ''b'', VString ''x'')]) [''.'']
      = Err \<lparr>want = ''int'', got = VString ''x'', path = [''.'', ''.'', ''b'']\<rparr>"
proof -
  have lt2: "\<And>P. (\<forall>i<2. P (i::nat)) = (P 0 \<and> P 1)"
    by (auto simp: less_Suc_eq numeral_2_eq_2)
  have lt1: "\<And>P. (\<forall>i<(1::nat). P i) = P 0" by auto
  show ?thesis
    using mapC_entrywise [where v = "VSlice []" and L = testlib and key = stringC and val = intC
        and p = "[''.'']" and kvs = "[(VString ''a'', VNum KInt8 1), (VString ''b'', VNum KInt16 2)]"
        and ks' = "[VString ''a'', VString ''b'']" and vs' = "[VNum KInt64 1, VNum KInt64 2]" and n = 0]
      mapC_entrywise [where v = VNil and L = testlib and key = stringC and val = intC
        and p = "[''.'']" and kvs = "[(VString ''a'', VNum KInt8 1), (VBool True, VNum KInt16 2)]"
        and ks' = "[]" and vs' = "[]" and n = 1
        and e = "\<lparr>want = ''string'', got = VBool True, path = [''.'']\<rparr>"]
      mapC_entrywise [where v = VNil and L = testlib and key = stringC and val = intC
        and p = "[''.'']" and kvs = "[(VString ''a'', VNum KInt8 1), (VString ''b'', VString ''x'')]"
        and ks' = "[]" and vs' = "[]" and n = 1
        and e = "\<lparr>want = ''int'', got = VString ''x'', path = [''.'', ''.'', ''b'']\<rparr>"]
    by (simp add: TypeOf_Kind_def go_map_def All_less_Suc testlib_def)
qed

section \<open>Field map sets\<close>

lemma mapSet_loop_skip:
  "\<forall>fm \<in> set pre. \<exists>c e. map_of (fst fm) sel = Some c \<and> co c selector p = Err e \<Longrightarrow>
   mapSet_loop co sel (pre @ rest) selector v p = mapSet_loop co sel rest selector v p"
  by (induction pre) auto

text \<open>
  C2. \<^verbatim>\<open>mapSetC.Coerce\<close> rejects a value that is not a map with the error \<^verbatim>\<open>map\<close>. On
  a map whose key type admits a string key (\<^verbatim>\<open>string\<close> or \<^verbatim>\<open>interface{}\<close>): when the
  selector field is not in the input, the error is \<^verbatim>\<open>supported selector\<close> with the nil
  value at the path extended by \<^verbatim>\<open>.\<close> and the selector. When it is in the input with
  value \<open>s\<close>, the selector checkers of the candidates are applied to \<open>s\<close> at the path given,
  in the order of declaration: the first candidate whose selector checker returns a value,
  those before it returning errors, coerces the whole input, and its result is the result
  (a selector checker that panics makes the call panic); when every selector checker
  returns an error, the error is \<^verbatim>\<open>supported selector\<close> with the value \<open>s\<close>. On a map
  of any other key type the lookup of the selector panics, and no error is returned.
\<close>

theorem mapSetC_selects_first:
  "(ValueOf_Kind v \<noteq> Map \<longrightarrow>
      Coerce L (mapSetC sel fmaps) v p = Err \<lparr>want = ''map'', got = v, path = p\<rparr>)
   \<and> (ValueOf_Kind v = Map \<and> \<not> admits_string v \<longrightarrow>
      Coerce L (mapSetC sel fmaps) v p = Panic NotAssignable)
   \<and> (ValueOf_Kind v = Map \<and> admits_string v \<and> MapIndex v (VString sel) = None \<longrightarrow>
      Coerce L (mapSetC sel fmaps) v p
        = Err \<lparr>want = ''supported selector'', got = VNil, path = p @ [''.'', sel]\<rparr>)
   \<and> (ValueOf_Kind v = Map \<and> admits_string v \<and> MapIndex v (VString sel) = Some s
        \<and> fmaps = pre @ fm # post
        \<and> (\<forall>fm' \<in> set pre. \<exists>c e. map_of (fst fm') sel = Some c \<and> Coerce L c s p = Err e)
        \<and> (\<exists>c r. map_of (fst fm) sel = Some c \<and> Coerce L c s p = Ok r)
      \<longrightarrow> Coerce L (mapSetC sel fmaps) v p = Coerce L (fieldMapC (fst fm) (snd fm)) v p)
   \<and> (ValueOf_Kind v = Map \<and> admits_string v \<and> MapIndex v (VString sel) = Some s
        \<and> fmaps = pre @ fm # post
        \<and> (\<forall>fm' \<in> set pre. \<exists>c e. map_of (fst fm') sel = Some c \<and> Coerce L c s p = Err e)
        \<and> (\<exists>c. map_of (fst fm) sel = Some c \<and> Coerce L c s p = Panic x)
      \<longrightarrow> Coerce L (mapSetC sel fmaps) v p = Panic x)
   \<and> (ValueOf_Kind v = Map \<and> admits_string v \<and> MapIndex v (VString sel) = Some s
        \<and> (\<forall>fm' \<in> set fmaps. \<exists>c e. map_of (fst fm') sel = Some c \<and> Coerce L c s p = Err e)
      \<longrightarrow> Coerce L (mapSetC sel fmaps) v p
            = Err \<lparr>want = ''supported selector'', got = s, path = p @ [''.'', sel]\<rparr>)"
proof (intro conjI impI)
  assume "ValueOf_Kind v \<noteq> Map"
  then show "Coerce L (mapSetC sel fmaps) v p = Err \<lparr>want = ''map'', got = v, path = p\<rparr>"
    by simp
next
  assume "ValueOf_Kind v = Map \<and> \<not> admits_string v"
  then show "Coerce L (mapSetC sel fmaps) v p = Panic NotAssignable"
    by simp
next
  assume "ValueOf_Kind v = Map \<and> admits_string v \<and> MapIndex v (VString sel) = None"
  then show "Coerce L (mapSetC sel fmaps) v p
        = Err \<lparr>want = ''supported selector'', got = VNil, path = p @ [''.'', sel]\<rparr>"
    by simp
next
  assume a: "ValueOf_Kind v = Map \<and> admits_string v \<and> MapIndex v (VString sel) = Some s
        \<and> fmaps = pre @ fm # post
        \<and> (\<forall>fm' \<in> set pre. \<exists>c e. map_of (fst fm') sel = Some c \<and> Coerce L c s p = Err e)
        \<and> (\<exists>c r. map_of (fst fm) sel = Some c \<and> Coerce L c s p = Ok r)"
  then have "mapSet_loop (\<lambda>c x q. Coerce L c x q) sel (pre @ fm # post) s v p
           = mapSet_loop (\<lambda>c x q. Coerce L c x q) sel (fm # post) s v p"
    by (intro mapSet_loop_skip) simp
  with a show "Coerce L (mapSetC sel fmaps) v p = Coerce L (fieldMapC (fst fm) (snd fm)) v p"
    by auto
next
  assume a: "ValueOf_Kind v = Map \<and> admits_string v \<and> MapIndex v (VString sel) = Some s
        \<and> fmaps = pre @ fm # post
        \<and> (\<forall>fm' \<in> set pre. \<exists>c e. map_of (fst fm') sel = Some c \<and> Coerce L c s p = Err e)
        \<and> (\<exists>c. map_of (fst fm) sel = Some c \<and> Coerce L c s p = Panic x)"
  then have "mapSet_loop (\<lambda>c x q. Coerce L c x q) sel (pre @ fm # post) s v p
           = mapSet_loop (\<lambda>c x q. Coerce L c x q) sel (fm # post) s v p"
    by (intro mapSet_loop_skip) simp
  with a show "Coerce L (mapSetC sel fmaps) v p = Panic x"
    by auto
next
  assume a: "ValueOf_Kind v = Map \<and> admits_string v \<and> MapIndex v (VString sel) = Some s
        \<and> (\<forall>fm' \<in> set fmaps. \<exists>c e. map_of (fst fm') sel = Some c \<and> Coerce L c s p = Err e)"
  then have "mapSet_loop (\<lambda>c x q. Coerce L c x q) sel (fmaps @ []) s v p
           = mapSet_loop (\<lambda>c x q. Coerce L c x q) sel [] s v p"
    by (intro mapSet_loop_skip) simp
  with a show "Coerce L (mapSetC sel fmaps) v p
            = Err \<lparr>want = ''supported selector'', got = s, path = p @ [''.'', sel]\<rparr>"
    by simp
qed

theorem mapSetC_selects_first_witness:
  "Coerce testlib (mapSetC ''kind'' [kindA, kindB]) (VSlice []) [''.'']
      = Err \<lparr>want = ''map'', got = VSlice [], path = [''.'']\<rparr>
   \<and> Coerce testlib (mapSetC ''kind'' [kindA, kindB])
        (VMap (KeyKind (Integer KInt)) [(VNum KInt 1, VString ''hi'')]) [''.'']
      = Panic NotAssignable
   \<and> Coerce testlib (mapSetC ''kind'' [kindA, kindB])
        (VMap (KeyKind String) [(VString ''y'', VString ''hi'')]) [''.'']
      = Err \<lparr>want = ''supported selector'', got = VNil, path = [''.'', ''.'', ''kind'']\<rparr>
   \<and> Coerce testlib (mapSetC ''kind'' [kindA, kindB])
        (VMap KeyInterface [(VString ''kind'', VString ''b''), (VString ''y'', VString ''hi'')]) [''.'']
      = Coerce testlib (fieldMapC (fst kindB) (snd kindB))
        (VMap KeyInterface [(VString ''kind'', VString ''b''), (VString ''y'', VString ''hi'')]) [''.'']
   \<and> Coerce testlib (mapSetC ''kind'' [kindA, kindB])
        (VMap KeyInterface [(VString ''kind'', VString ''b''), (VString ''y'', VString ''hi'')]) [''.'']
      = Ok (VMap (KeyKind String) [(VString ''kind'', VString ''b''), (VString ''y'', VString ''hi'')])
   \<and> Coerce testlib (mapSetC ''kind'' [kindA, kindB])
        (VMap KeyInterface [(VString ''kind'', VString ''b''), (VString ''y'', VNum KInt 3)]) [''.'']
      = Err \<lparr>want = ''string'', got = VNum KInt 3, path = [''.'', ''.'', ''y'']\<rparr>
   \<and> Coerce testlib (mapSetC ''kind'' [kindA, ([(''kind'', boolC)], [])])
        (VMap KeyInterface [(VString ''kind'', VNil)]) [''.'']
      = Panic NilTypeCall
   \<and> Coerce testlib (mapSetC ''kind'' [kindA, kindB])
        (VMap KeyInterface [(VString ''kind'', VString ''c'')]) [''.'']
      = Err \<lparr>want = ''supported selector'', got = VString ''c'', path = [''.'', ''.'', ''kind'']\<rparr>"
  using mapSetC_selects_first [where v = "VSlice []" and L = testlib and sel = "''kind''"
        and fmaps = "[kindA, kindB]" and p = "[''.'']" and pre = "[]" and fm = kindA and post = "[kindB]"
        and s = VNil]
    mapSetC_selects_first [where v = "VMap (KeyKind (Integer KInt)) [(VNum KInt 1, VString ''hi'')]"
        and L = testlib and sel = "''kind''" and fmaps = "[kindA, kindB]" and p = "[''.'']"
        and pre = "[]" and fm = kindA and post = "[kindB]" and s = VNil]
    mapSetC_selects_first [where v = "VMap (KeyKind String) [(VString ''y'', VString ''hi'')]"
        and L = testlib and sel = "''kind''" and fmaps = "[kindA, kindB]" and p = "[''.'']"
        and pre = "[]" and fm = kindA and post = "[kindB]" and s = VNil]
    mapSetC_selects_first [where v = "VMap KeyInterface [(VString ''kind'', VString ''b''), (VString ''y'', VString ''hi'')]"
        and L = testlib and sel = "''kind''" and fmaps = "[kindA, kindB]" and p = "[''.'']"
        and pre = "[kindA]" and fm = kindB and post = "[]" and s = "VString ''b''"]
    mapSetC_selects_first [where v = "VMap KeyInterface [(VString ''kind'', VString ''b''), (VString ''y'', VNum KInt 3)]"
        and L = testlib and sel = "''kind''" and fmaps = "[kindA, kindB]" and p = "[''.'']"
        and pre = "[kindA]" and fm = kindB and post = "[]" and s = "VString ''b''"]
    mapSetC_selects_first [where v = "VMap KeyInterface [(VString ''kind'', VNil)]"
        and L = testlib and sel = "''kind''" and fmaps = "[kindA, ([(''kind'', boolC)], [])]" and p = "[''.'']"
        and pre = "[kindA]" and fm = "([(''kind'', boolC)], [])" and post = "[]" and s = "VNil"
        and x = NilTypeCall]
    mapSetC_selects_first [where v = "VMap KeyInterface [(VString ''kind'', VString ''c'')]"
        and L = testlib and sel = "''kind''" and fmaps = "[kindA, kindB]" and p = "[''.'']"
        and pre = "[]" and fm = kindA and post = "[kindB]" and s = "VString ''c''"]
  by (simp add: TypeOf_Kind_def MapIndex_def kindA_def kindB_def testlib_def fieldMapC_Coerce_def)

text \<open>
  The field map set of the two candidates \<open>kindA\<close> and \<open>kindB\<close> on a \<^verbatim>\<open>map[int]string\<close>:
  the input is a map, the selector field is not in it, and the call returns no
  \<^verbatim>\<open>supported selector\<close> error: \<^verbatim>\<open>rv.MapIndex(reflect.ValueOf(c.selector))\<close> panics, a
  string not being assignable to the key type \<^verbatim>\<open>int\<close>.
\<close>

theorem mapSetC_key_type_counterexample:
  "FieldMapSet ''kind'' [FieldMap (fst kindA) (snd kindA), FieldMap (fst kindB) (snd kindB)]
      = Inr (mapSetC ''kind'' [kindA, kindB])
   \<and> ValueOf_Kind (VMap (KeyKind (Integer KInt)) [(VNum KInt 1, VString ''hi'')]) = Map
   \<and> MapIndex (VMap (KeyKind (Integer KInt)) [(VNum KInt 1, VString ''hi'')]) (VString ''kind'') = None
   \<and> Coerce testlib (mapSetC ''kind'' [kindA, kindB])
        (VMap (KeyKind (Integer KInt)) [(VNum KInt 1, VString ''hi'')]) [''.'']
      = Panic NotAssignable
   \<and> Coerce testlib (mapSetC ''kind'' [kindA, kindB])
        (VMap (KeyKind (Integer KInt)) [(VNum KInt 1, VString ''hi'')]) [''.'']
      \<noteq> Err \<lparr>want = ''supported selector'', got = VNil, path = [''.'', ''.'', ''kind'']\<rparr>"
  by (simp add: FieldMapSet_def FieldMap_def kindA_def kindB_def MapIndex_def)

section \<open>What the loops over fields and entries compute\<close>







lemma set_updates_subset:
  "set (AList.updates ks vs al) \<subseteq> set al \<union> set (zip ks vs)"
proof (induction ks arbitrary: vs al)
  case Nil
  then show ?case by simp
next
  case (Cons k ks)
  show ?case
  proof (cases vs)
    case Nil
    then show ?thesis by simp
  next
    case (Cons v vs')
    have "set (AList.update k v al) \<subseteq> insert (k, v) (set al)"
      by (induction al) auto
    with Cons.IH [of vs' "AList.update k v al"] Cons show ?thesis by auto
  qed
qed









section \<open>Enumeration order\<close>









lemma agree_Err_D: "agree a b \<Longrightarrow> a = Err e \<Longrightarrow> (\<exists>e'. b = Err e') \<or> (\<exists>x. b = Panic x)"
  by (cases b) auto















lemma agree_Panic_right [simp]: "agree a (Panic y)"
  by (cases a) auto







lemma agree_refl [simp]: "agree a a"
  by (cases a) auto








section \<open>Coercing a coerced value\<close>








lemma go_map_updates:
  assumes "\<forall>k \<in> set ks. hashable k"
  shows "go_map (AList.updates ks vs [])"
proof -
  have d: "distinct (map fst (AList.updates ks vs []))" by (rule distinct_updates) simp
  have "fst ` set (AList.updates ks vs []) \<subseteq> set ks"
  proof
    fix a assume "a \<in> fst ` set (AList.updates ks vs [])"
    then obtain b where "(a, b) \<in> set (AList.updates ks vs [])" by auto
    with set_updates_subset [of ks vs "[]"] have "(a, b) \<in> set (zip ks vs)" by auto
    then show "a \<in> set ks" by (rule set_zip_leftD)
  qed
  with assms d show ?thesis by (auto simp: go_map_def list_all_iff)
qed






end
